theory Spec2Isabelle
  imports Complex_Main "HOL-Library.Sublist" "HOL-Library.Multiset"
begin

section \<open>Python text\<close>

text \<open>
  The analyzer of \<^verbatim>\<open>src/doc_genie/analyzer.py\<close> works on Python \<^verbatim>\<open>str\<close> values.
  A text is modelled as a \<^typ>\<open>string\<close>, one \<^typ>\<open>char\<close> per code point, which covers
  the code points below 256. The \<^verbatim>\<open>str\<close> methods the analyzer calls are written
  out below with the behaviour CPython documents for them.
\<close>

definition isspace :: "char \<Rightarrow> bool" where
  \<comment> \<open>\<^verbatim>\<open>str.isspace\<close> on one code point below 256\<close>
  "isspace c = (c \<in> set [CHR 0x09, CHR 0x0A, CHR 0x0B, CHR 0x0C, CHR 0x0D,
                         CHR 0x1C, CHR 0x1D, CHR 0x1E, CHR 0x1F, CHR 0x20,
                         CHR 0x85, CHR 0xA0])"

definition lstrip :: "string \<Rightarrow> string" where
  "lstrip s = dropWhile isspace s"

definition rstrip :: "string \<Rightarrow> string" where
  "rstrip s = rev (dropWhile isspace (rev s))"

definition strip :: "string \<Rightarrow> string" where
  \<comment> \<open>\<^verbatim>\<open>s.strip()\<close>\<close>
  "strip s = rstrip (lstrip s)"

definition lstrip_chars :: "string \<Rightarrow> string \<Rightarrow> string" where
  \<comment> \<open>\<^verbatim>\<open>s.lstrip(chars)\<close>: every leading character that is in \<open>chars\<close> goes\<close>
  "lstrip_chars chars s = dropWhile (\<lambda>c. c \<in> set chars) s"

definition rstrip_chars :: "string \<Rightarrow> string \<Rightarrow> string" where
  \<comment> \<open>\<^verbatim>\<open>s.rstrip(chars)\<close>: every trailing character that is in \<open>chars\<close> goes\<close>
  "rstrip_chars chars s = rev (dropWhile (\<lambda>c. c \<in> set chars) (rev s))"

definition startswith :: "string \<Rightarrow> string \<Rightarrow> bool" where
  \<comment> \<open>\<^verbatim>\<open>s.startswith(p)\<close>\<close>
  "startswith s p = prefix p s"

definition endswith :: "string \<Rightarrow> string \<Rightarrow> bool" where
  \<comment> \<open>\<^verbatim>\<open>s.endswith(p)\<close>\<close>
  "endswith s p = prefix (rev p) (rev s)"

fun str_in :: "string \<Rightarrow> string \<Rightarrow> bool" where
  \<comment> \<open>\<^verbatim>\<open>sub in s\<close> on two texts: \<open>sub\<close> occurs in \<open>s\<close> as a contiguous run\<close>
  "str_in sub [] = (sub = [])"
| "str_in sub (c # cs) = (prefix sub (c # cs) \<or> str_in sub cs)"

fun split_from :: "char \<Rightarrow> string \<Rightarrow> string \<Rightarrow> string list" where
  \<comment> \<open>the scan of \<^verbatim>\<open>s.split(sep)\<close>: \<open>cur\<close> is the piece read so far\<close>
  "split_from sep cur [] = [cur]"
| "split_from sep cur (c # cs) =
     (if c = sep then cur # split_from sep [] cs else split_from sep (cur @ [c]) cs)"

definition split_on :: "char \<Rightarrow> string \<Rightarrow> string list" where
  \<comment> \<open>\<^verbatim>\<open>s.split(sep)\<close> for a separator of one character: never an empty list\<close>
  "split_on sep s = split_from sep [] s"

definition upper_table :: string where
  "upper_table = ''ABCDEFGHIJKLMNOPQRSTUVWXYZ'' @
     [CHR 0xC0, CHR 0xC1, CHR 0xC2, CHR 0xC3, CHR 0xC4, CHR 0xC5, CHR 0xC6, CHR 0xC7,
      CHR 0xC8, CHR 0xC9, CHR 0xCA, CHR 0xCB, CHR 0xCC, CHR 0xCD, CHR 0xCE, CHR 0xCF,
      CHR 0xD0, CHR 0xD1, CHR 0xD2, CHR 0xD3, CHR 0xD4, CHR 0xD5, CHR 0xD6,
      CHR 0xD8, CHR 0xD9, CHR 0xDA, CHR 0xDB, CHR 0xDC, CHR 0xDD, CHR 0xDE]"

definition lower_table :: string where
  "lower_table = ''abcdefghijklmnopqrstuvwxyz'' @
     [CHR 0xE0, CHR 0xE1, CHR 0xE2, CHR 0xE3, CHR 0xE4, CHR 0xE5, CHR 0xE6, CHR 0xE7,
      CHR 0xE8, CHR 0xE9, CHR 0xEA, CHR 0xEB, CHR 0xEC, CHR 0xED, CHR 0xEE, CHR 0xEF,
      CHR 0xF0, CHR 0xF1, CHR 0xF2, CHR 0xF3, CHR 0xF4, CHR 0xF5, CHR 0xF6,
      CHR 0xF8, CHR 0xF9, CHR 0xFA, CHR 0xFB, CHR 0xFC, CHR 0xFD, CHR 0xFE]"

definition lower_char :: "char \<Rightarrow> char" where
  "lower_char c = (case map_of (zip upper_table lower_table) c of Some d \<Rightarrow> d | None \<Rightarrow> c)"

definition lower :: "string \<Rightarrow> string" where
  \<comment> \<open>\<^verbatim>\<open>s.lower()\<close>\<close>
  "lower s = map lower_char s"

definition rfind :: "char \<Rightarrow> string \<Rightarrow> int" where
  \<comment> \<open>\<^verbatim>\<open>s.rfind(c)\<close>: the index of the last \<open>c\<close>, or -1\<close>
  "rfind c s =
     (if c \<in> set s then int (length s) - 1 - int (length (takeWhile (\<lambda>x. x \<noteq> c) (rev s)))
      else - 1)"

definition path_suffix :: "string \<Rightarrow> string" where
  \<comment> \<open>\<^verbatim>\<open>Path(name).suffix\<close> of \<^verbatim>\<open>pathlib\<close>, for a name without a slash:
      the text from the last dot on, unless that dot is the first or the last character\<close>
  "path_suffix name =
     (let i = rfind CHR ''.'' name
      in if 0 < i \<and> i < int (length name) - 1 then drop (nat i) name else [])"

section \<open>The path filter of \<^verbatim>\<open>GitHubCodebaseAnalyzer.analyze_repository\<close>\<close>

text \<open>
  An entry of the file tree, as the GitHub API returns it: the keys \<^verbatim>\<open>type\<close>,
  \<^verbatim>\<open>path\<close> and \<^verbatim>\<open>size\<close> of the dictionary.
\<close>

record tree_item =
  item_type :: string
  item_path :: string
  item_size :: int

definition excluded_extensions :: "string list" where
  "excluded_extensions = [''.png'', ''.jpg'', ''.jpeg'', ''.gif'', ''.ico'', ''.svg'',
                          ''.pdf'', ''.zip'', ''.tar'', ''.gz'', ''.exe'', ''.bin'']"

definition pattern_hit :: "string \<Rightarrow> string \<Rightarrow> string \<Rightarrow> bool" where
  \<comment> \<open>the \<^verbatim>\<open>if/elif/elif\<close> chain in the loop over \<^verbatim>\<open>ignore_patterns\<close>\<close>
  "pattern_hit pattern file_path file_name =
     (if endswith pattern ''/'' \<and> startswith file_path (rstrip_chars ''/'' pattern) then True
      else if startswith pattern ''*.'' \<and> endswith file_name (lstrip_chars ''*'' pattern) then True
      else if pattern = file_name \<or> pattern = file_path then True
      else False)"

fun ignored :: "string list \<Rightarrow> string \<Rightarrow> string \<Rightarrow> bool" where
  \<comment> \<open>the loop over the patterns, in the order the set is iterated, with its \<^verbatim>\<open>break\<close>\<close>
  "ignored [] file_path file_name = False"
| "ignored (pattern # rest) file_path file_name =
     (if pattern_hit pattern file_path file_name then True
      else ignored rest file_path file_name)"

definition size_ceiling :: int where
  "size_ceiling = 100000"

definition is_eligible :: "string list \<Rightarrow> tree_item \<Rightarrow> bool" where
  \<comment> \<open>the body of the loop over the tree, for one blob: lines 1211 to 1229\<close>
  "is_eligible ignore_patterns item =
     (let file_path = item_path item;
          file_name = last (split_on CHR ''/'' file_path);
          extension = lower (path_suffix file_name)
      in \<not> ignored ignore_patterns file_path file_name
         \<and> item_size item < size_ceiling
         \<and> extension \<notin> set excluded_extensions)"

definition files_to_analyze :: "string list \<Rightarrow> tree_item list \<Rightarrow> tree_item list" where
  \<comment> \<open>the list the loop builds, then cut to \<^verbatim>\<open>max_files = 50\<close>\<close>
  "files_to_analyze ignore_patterns file_tree =
     take 50 (filter (\<lambda>item. item_type item = ''blob'' \<and> is_eligible ignore_patterns item) file_tree)"

subsection \<open>The filter with the checks it makes written down\<close>

text \<open>
  The same loop body, returning next to its decision the checks it evaluated, in order:
  one \<open>PatternCheck\<close> per pattern the inner loop reached (it stops at the first hit),
  then the operands of \<^verbatim>\<open>not ignored and size < 100000 and extension not in ...\<close>
  as far as Python's \<^verbatim>\<open>and\<close> evaluates them.
\<close>

datatype check = PatternCheck string | SizeCheck | ExtensionCheck

fun ignored_trace :: "string list \<Rightarrow> string \<Rightarrow> string \<Rightarrow> bool \<times> check list" where
  "ignored_trace [] file_path file_name = (False, [])"
| "ignored_trace (pattern # rest) file_path file_name =
     (if pattern_hit pattern file_path file_name then (True, [PatternCheck pattern])
      else (case ignored_trace rest file_path file_name of
              (found, checks) \<Rightarrow> (found, PatternCheck pattern # checks)))"

definition is_eligible_trace :: "string list \<Rightarrow> tree_item \<Rightarrow> bool \<times> check list" where
  "is_eligible_trace ignore_patterns item =
     (let file_path = item_path item;
          file_name = last (split_on CHR ''/'' file_path);
          extension = lower (path_suffix file_name)
      in case ignored_trace ignore_patterns file_path file_name of
           (found, checks) \<Rightarrow>
             if found then (False, checks)
             else if \<not> item_size item < size_ceiling then (False, checks @ [SizeCheck])
             else if \<not> extension \<notin> set excluded_extensions
               then (False, checks @ [SizeCheck, ExtensionCheck])
             else (True, checks @ [SizeCheck, ExtensionCheck]))"

section \<open>\<^verbatim>\<open>CodeAnalyzer._calculate_complexity\<close>\<close>

fun count_sub :: "string \<Rightarrow> string \<Rightarrow> nat" where
  \<comment> \<open>\<^verbatim>\<open>s.count(sub)\<close>: the occurrences of \<open>sub\<close> met from the left, the scan going
      on after the end of each one; for the empty \<open>sub\<close> Python answers \<open>len(s) + 1\<close>\<close>
  "count_sub sub [] = (if sub = [] then 1 else 0)"
| "count_sub sub (c # cs) =
     (if sub = [] then Suc (Suc (length cs))
      else if prefix sub (c # cs) then Suc (count_sub sub (drop (length sub - 1) cs))
      else count_sub sub cs)"

text \<open>
  A Python \<^verbatim>\<open>float\<close> is modelled by the real number it stands for. \<^verbatim>\<open>round(x, 2)\<close>
  rounds to the nearest multiple of one hundredth, a tie going to the even neighbour.
\<close>

definition round_half_even :: "real \<Rightarrow> int" where
  "round_half_even x =
     (let f = \<lfloor>x\<rfloor>; d = x - of_int f
      in if d < 1 / 2 then f else if 1 / 2 < d then f + 1 else if even f then f else f + 1)"

definition round2 :: "real \<Rightarrow> real" where
  "round2 x = of_int (round_half_even (x * 100)) / 100"

definition control_structures :: "string list" where
  "control_structures = [''if'', ''for'', ''while'', ''switch'', ''case'', ''try'', ''catch'']"

definition calculate_complexity :: "string \<Rightarrow> real" where
  "calculate_complexity content =
     (let lines = split_on CHR 0x0A content;
          complexity = real (length lines) * 0.1
      in round2 (fold (\<lambda>structure complexity.
                         complexity + real (count_sub structure (lower content)) * 0.5)
                   control_structures complexity))"

text \<open>
  The count the specification speaks of: every position of the text at which the keyword
  starts, whether or not two occurrences overlap.
\<close>

fun occurrences :: "string \<Rightarrow> string \<Rightarrow> nat" where
  "occurrences sub [] = 0"
| "occurrences sub (c # cs) = (if prefix sub (c # cs) then 1 else 0) + occurrences sub cs"

definition unbordered :: "string \<Rightarrow> bool" where
  \<comment> \<open>no proper end of the word is also a start of it, so two occurrences never overlap\<close>
  "unbordered w = (w \<noteq> [] \<and> list_all (\<lambda>j. \<not> prefix (drop j w) w) [1..<length w])"

section \<open>\<^verbatim>\<open>DependencyAnalyzer\<close>: the manifest parsers\<close>

text \<open>
  An exception a parser can raise is a value: a parser returns \<open>Inl\<close> of the exception
  or \<open>Inr\<close> of its list of records.
\<close>

datatype pyerror = JSONDecodeError | TypeError | KeyError | AttributeError | IndexError
  | SyntaxError | ValueError | RecursionError | MemoryError

datatype ecosystem = Npm | Pip | Pipenv | Cargo | Go | Maven | Composer

text \<open>
  A dependency record is the dictionary with the keys \<^verbatim>\<open>name\<close>, \<^verbatim>\<open>version\<close>,
  \<^verbatim>\<open>type\<close> and \<^verbatim>\<open>is_dev\<close>. The version is a text in the line-based parsers and
  whatever value the document holds in the two JSON-based ones.
\<close>

record 'v dependency =
  name :: string
  version :: 'v
  dep_type :: ecosystem
  is_dev :: bool

definition py_index :: "'a list \<Rightarrow> nat \<Rightarrow> pyerror + 'a" where
  \<comment> \<open>\<^verbatim>\<open>xs[i]\<close> for \<open>i \<ge> 0\<close>: \<^verbatim>\<open>IndexError\<close> out of range\<close>
  "py_index xs i = (if i < length xs then Inr (xs ! i) else Inl IndexError)"

fun collect :: "('a \<Rightarrow> pyerror + 'b list) \<Rightarrow> 'a list \<Rightarrow> pyerror + 'b list" where
  \<comment> \<open>a \<^verbatim>\<open>for\<close> loop whose body appends the records of one item to the result list;
      an exception in the body ends the loop and the function\<close>
  "collect body [] = Inr []"
| "collect body (x # xs) =
     (case body x of
        Inl e \<Rightarrow> Inl e
      | Inr ys \<Rightarrow> (case collect body xs of Inl e \<Rightarrow> Inl e | Inr zs \<Rightarrow> Inr (ys @ zs)))"

fun replace :: "string \<Rightarrow> string \<Rightarrow> string \<Rightarrow> string" where
  \<comment> \<open>\<^verbatim>\<open>s.replace(old, new)\<close>: every occurrence of \<open>old\<close> met from the left, the scan
      going on after the end of each one; the empty \<open>old\<close> occurs before every character
      and at the end\<close>
  "replace old new [] = (if old = [] then new else [])"
| "replace old new (c # cs) =
     (if old = [] then new @ c # replace old new cs
      else if prefix old (c # cs) then new @ replace old new (drop (length old - 1) cs)
      else c # replace old new cs)"

fun split_any_from :: "string \<Rightarrow> string \<Rightarrow> string \<Rightarrow> string list" where
  "split_any_from chars cur [] = [cur]"
| "split_any_from chars cur (c # cs) =
     (if c \<in> set chars then cur # split_any_from chars [] cs
      else split_any_from chars (cur @ [c]) cs)"

definition split_any :: "string \<Rightarrow> string \<Rightarrow> string list" where
  \<comment> \<open>\<^verbatim>\<open>re.split('[chars]', s)\<close>: the pieces between the characters of the class\<close>
  "split_any chars s = split_any_from chars [] s"

fun split_space_from :: "string \<Rightarrow> string \<Rightarrow> string list" where
  "split_space_from cur [] = (if cur = [] then [] else [cur])"
| "split_space_from cur (c # cs) =
     (if isspace c then (if cur = [] then [] else [cur]) @ split_space_from [] cs
      else split_space_from (cur @ [c]) cs)"

definition split_space :: "string \<Rightarrow> string list" where
  \<comment> \<open>\<^verbatim>\<open>s.split()\<close>: the runs of characters that are not white space\<close>
  "split_space s = split_space_from [] s"

subsection \<open>\<^verbatim>\<open>_parse_pip_dependencies\<close>\<close>

definition version_operators :: string where
  \<comment> \<open>the character class of \<^verbatim>\<open>re.split(r'[>=<~!]', line)\<close>\<close>
  "version_operators = ''>=<~!''"

definition pip_line :: "string \<Rightarrow> pyerror + string dependency list" where
  \<comment> \<open>the body of the loop over \<^verbatim>\<open>content.split('\n')\<close>\<close>
  "pip_line raw =
     (let line = strip raw
      in if line \<noteq> [] \<and> \<not> startswith line ''#'' then
           (case py_index (split_any version_operators line) 0 of
              Inl e \<Rightarrow> Inl e
            | Inr piece \<Rightarrow>
                (let name_version = strip piece;
                     rest = strip (replace name_version [] line);
                     version = (if rest = [] then ''*'' else rest)
                 in Inr [\<lparr>name = name_version, version = version, dep_type = Pip, is_dev = False\<rparr>]))
         else Inr [])"

definition parse_pip_dependencies :: "string \<Rightarrow> pyerror + string dependency list" where
  "parse_pip_dependencies content = collect pip_line (split_on CHR 0x0A content)"

subsection \<open>\<^verbatim>\<open>_parse_pipfile_dependencies\<close>\<close>

fun pipfile_lines :: "string list \<Rightarrow> string \<Rightarrow> string dependency list
    \<Rightarrow> pyerror + string dependency list" where
  \<comment> \<open>the loop over the lines; \<open>current_section\<close> and \<open>dependencies\<close> are its variables\<close>
  "pipfile_lines [] current_section dependencies = Inr dependencies"
| "pipfile_lines (raw # rest) current_section dependencies =
     (let line = strip raw
      in if startswith line ''['' \<and> endswith line '']'' then
           pipfile_lines rest (butlast (tl line)) dependencies
         else if CHR ''='' \<in> set line \<and> current_section \<in> set [''packages'', ''dev-packages''] then
           (case py_index (split_on CHR ''='' line) 0 of
              Inl e \<Rightarrow> Inl e
            | Inr left \<Rightarrow>
                (case py_index (split_on CHR ''='' line) 1 of
                   Inl e \<Rightarrow> Inl e
                 | Inr right \<Rightarrow>
                     pipfile_lines rest current_section
                       (dependencies @
                         [\<lparr>name = strip left,
                           version = replace [CHR 0x22] [] (strip right),
                           dep_type = Pipenv,
                           is_dev = (current_section = ''dev-packages'')\<rparr>])))
         else pipfile_lines rest current_section dependencies)"

definition parse_pipfile_dependencies :: "string \<Rightarrow> pyerror + string dependency list" where
  "parse_pipfile_dependencies content = pipfile_lines (split_on CHR 0x0A content) [] []"

subsection \<open>\<^verbatim>\<open>_parse_cargo_dependencies\<close>\<close>



subsection \<open>\<^verbatim>\<open>_parse_go_dependencies\<close>\<close>



subsection \<open>\<^verbatim>\<open>_parse_maven_dependencies\<close>\<close>


subsection \<open>\<^verbatim>\<open>_parse_npm_dependencies\<close> and \<^verbatim>\<open>_parse_composer_dependencies\<close>\<close>








subsection \<open>\<^verbatim>\<open>DependencyAnalyzer.analyze_repository\<close>\<close>






abbreviation newline :: string where "newline \<equiv> [CHR 0x0A]"

abbreviation dquote :: string where "dquote \<equiv> [CHR 0x22]"

section \<open>\<^verbatim>\<open>File\<close> and \<^verbatim>\<open>CodeAnalyzer\<close>\<close>

text \<open>
  The class \<^verbatim>\<open>File\<close>. Its attributes \<^verbatim>\<open>path\<close>, \<^verbatim>\<open>name\<close>, \<^verbatim>\<open>extension\<close>, \<^verbatim>\<open>size\<close>,
  \<^verbatim>\<open>content\<close> and \<^verbatim>\<open>language\<close> carry the prefix \<open>file_\<close> here.
\<close>

record source_file =
  file_path :: string
  file_name :: string
  file_extension :: string
  file_size :: int
  file_content :: string
  file_language :: string
  line_count :: nat
  function_count :: nat
  class_count :: nat
  complexity_score :: real

definition extension_map :: "(string \<times> string) list" where
  "extension_map =
     [(''py'', ''Python''), (''js'', ''JavaScript''), (''ts'', ''TypeScript''), (''java'', ''Java''),
      (''cpp'', ''C++''), (''c'', ''C''), (''go'', ''Go''), (''rs'', ''Rust''), (''rb'', ''Ruby''),
      (''php'', ''PHP''), (''cs'', ''C#''), (''swift'', ''Swift''), (''kt'', ''Kotlin''),
      (''html'', ''HTML''), (''css'', ''CSS''), (''json'', ''JSON''), (''yaml'', ''YAML''),
      (''yml'', ''YAML'')]"

definition detect_language :: "string \<Rightarrow> string" where
  \<comment> \<open>\<^verbatim>\<open>File._detect_language\<close>\<close>
  "detect_language extension =
     (case map_of extension_map (lower extension) of Some language \<Rightarrow> language | None \<Rightarrow> ''Unknown'')"

definition File :: "string \<Rightarrow> string \<Rightarrow> string \<Rightarrow> int \<Rightarrow> string \<Rightarrow> source_file" where
  \<comment> \<open>\<^verbatim>\<open>File.__init__\<close>\<close>
  "File path base_name extension size_bytes content =
     \<lparr>file_path = path, file_name = base_name, file_extension = extension,
      file_size = size_bytes,
      file_content = content, file_language = detect_language extension,
      line_count = 0, function_count = 0, class_count = 0, complexity_score = 0\<rparr>"

subsection \<open>The syntax tree of \<^verbatim>\<open>ast.parse\<close>\<close>

text \<open>
  A node of the tree has a class and its child nodes, in the order \<^verbatim>\<open>ast.iter_child_nodes\<close>
  yields them. The loop of the analyzer asks of a node only whether it is an instance of
  \<^verbatim>\<open>ast.FunctionDef\<close> or of \<^verbatim>\<open>ast.ClassDef\<close>; \<^verbatim>\<open>ast.AsyncFunctionDef\<close> and
  \<^verbatim>\<open>ast.Lambda\<close> are classes of their own, neither a subclass of \<^verbatim>\<open>ast.FunctionDef\<close>.
  The parser is Python's, not code of the analyzer: it is the parameter \<open>parse\<close>, which
  returns the tree or the exception raised.
\<close>

datatype node_class = Module | FunctionDef | AsyncFunctionDef | ClassDef | Lambda | OtherNode

datatype ast = Node node_class "ast list"

fun nodes :: "ast \<Rightarrow> nat" where
  "nodes (Node cls children) = Suc (sum_list (map nodes children))"

function walk_queue :: "ast list \<Rightarrow> ast list" where
  \<comment> \<open>\<^verbatim>\<open>ast.walk\<close>: take the first node of the queue, put its children at the end of the
      queue, yield the node\<close>
  "walk_queue [] = []"
| "walk_queue (Node cls children # todo) = Node cls children # walk_queue (todo @ children)"
  by pat_completeness auto
termination
  by (relation "measure (\<lambda>todo. sum_list (map nodes todo))") simp_all

definition walk :: "ast \<Rightarrow> ast list" where
  "walk tree = walk_queue [tree]"

fun count_definitions :: "ast list \<Rightarrow> nat \<times> nat \<Rightarrow> nat \<times> nat" where
  \<comment> \<open>the loop over \<^verbatim>\<open>ast.walk(tree)\<close> with its counters \<open>functions\<close> and \<open>classes\<close>\<close>
  "count_definitions [] (functions, classes) = (functions, classes)"
| "count_definitions (Node cls children # rest) (functions, classes) =
     (if cls = FunctionDef then count_definitions rest (functions + 1, classes)
      else if cls = ClassDef then count_definitions rest (functions, classes + 1)
      else count_definitions rest (functions, classes))"

definition analyze_python_code ::
    "(string \<Rightarrow> pyerror + ast) \<Rightarrow> source_file \<Rightarrow> pyerror + source_file" where
  \<comment> \<open>\<^verbatim>\<open>_analyze_python_code\<close>: the \<^verbatim>\<open>except Exception\<close> branch prints a warning and
      returns\<close>
  "analyze_python_code parse file_obj =
     (case parse (file_content file_obj) of
        Inl e \<Rightarrow> Inr file_obj
      | Inr tree \<Rightarrow>
          (case count_definitions (walk tree) (0, 0) of
             (functions, classes) \<Rightarrow>
               Inr (file_obj\<lparr>function_count := functions, class_count := classes\<rparr>)))"

text \<open>
  The number of nodes of a class in a tree, at every depth: the definitions at the top
  level of the module and the ones nested in other definitions alike.
\<close>

fun count_class :: "node_class \<Rightarrow> ast \<Rightarrow> nat" where
  "count_class k (Node cls children) =
     (if cls = k then 1 else 0) + sum_list (map (count_class k) children)"

subsection \<open>\<^verbatim>\<open>_analyze_javascript_code\<close>, \<^verbatim>\<open>_analyze_generic_code\<close> and \<^verbatim>\<open>analyze_file\<close>\<close>

abbreviation bslash :: string where "bslash \<equiv> [CHR 0x5C]"

definition function_patterns :: "string list" where
  "function_patterns =
     [''function'' @ bslash @ ''s+'' @ bslash @ ''w+'' @ bslash @ ''s*'' @ bslash @ ''('',
      bslash @ ''w+'' @ bslash @ ''s*:'' @ bslash @ ''s*function'' @ bslash @ ''s*'' @ bslash @ ''('',
      bslash @ ''w+'' @ bslash @ ''s*='' @ bslash @ ''s*function'' @ bslash @ ''s*'' @ bslash @ ''('',
      bslash @ ''w+'' @ bslash @ ''s*='' @ bslash @ ''s*'' @ bslash @ ''([^)]*'' @ bslash @ '')''
        @ bslash @ ''s*=>'',
      ''async'' @ bslash @ ''s+function'' @ bslash @ ''s+'' @ bslash @ ''w+'' @ bslash @ ''s*''
        @ bslash @ ''('']"

definition class_pattern :: string where
  "class_pattern = ''class'' @ bslash @ ''s+'' @ bslash @ ''w+''"

definition analyze_javascript_code :: "(string \<Rightarrow> string \<Rightarrow> nat) \<Rightarrow> source_file \<Rightarrow> source_file" where
  \<comment> \<open>\<open>findall_count pattern content\<close> is \<^verbatim>\<open>len(re.findall(pattern, content, re.MULTILINE))\<close>\<close>
  "analyze_javascript_code findall_count file_obj =
     file_obj\<lparr>function_count :=
                 fold (\<lambda>pattern functions. functions + findall_count pattern (file_content file_obj))
                      function_patterns 0,
              class_count := findall_count class_pattern (file_content file_obj)\<rparr>"

definition function_keywords :: "string list" where
  "function_keywords = [''function'', ''def'', ''func'', ''sub'', ''procedure'', ''method'']"

definition class_keywords :: "string list" where
  "class_keywords = [''class'', ''struct'', ''interface'', ''type'']"

definition analyze_generic_code :: "source_file \<Rightarrow> source_file" where
  "analyze_generic_code file_obj =
     (let content = lower (file_content file_obj)
      in file_obj\<lparr>function_count := sum_list (map (\<lambda>keyword. count_sub keyword content) function_keywords),
                  class_count := sum_list (map (\<lambda>keyword. count_sub keyword content) class_keywords)\<rparr>)"

definition analyze_file ::
    "(string \<Rightarrow> pyerror + ast) \<Rightarrow> (string \<Rightarrow> string \<Rightarrow> nat) \<Rightarrow> source_file
     \<Rightarrow> pyerror + source_file" where
  "analyze_file parse findall_count file_obj =
     (if file_content file_obj = [] then Inr file_obj
      else
        (let counted = file_obj\<lparr>line_count := length (split_on CHR 0x0A (file_content file_obj))\<rparr>
         in case (if file_language counted = ''Python'' then analyze_python_code parse counted
                  else if file_language counted \<in> set [''JavaScript'', ''TypeScript'']
                    then Inr (analyze_javascript_code findall_count counted)
                  else Inr (analyze_generic_code counted)) of
              Inl e \<Rightarrow> Inl e
            | Inr analyzed \<Rightarrow>
                Inr (analyzed\<lparr>complexity_score := calculate_complexity (file_content analyzed)\<rparr>)))"

section \<open>\<^verbatim>\<open>TechnologyDetector\<close>\<close>

abbreviation squote :: string where "squote \<equiv> [CHR 0x27]"

text \<open>
  The catalog: category, technology, patterns, in the order the dictionaries are written
  and iterated.
\<close>

definition technology_patterns :: "(string \<times> (string \<times> string list) list) list" where
  "technology_patterns =
    [
     (''frameworks'',
       [
        (''React'', [''import.*react'', ''from ['' @ squote @ bslash @ dquote @ '']react['' @ squote @ bslash @ dquote @ '']'', ''react'']),
        (''Angular'', [''@angular'', ''ng'' @ bslash @ ''.'', ''angular'']),
        (''Vue'', [''import.*vue'', ''from ['' @ squote @ bslash @ dquote @ '']vue['' @ squote @ bslash @ dquote @ '']'', ''vue'']),
        (''Django'', [''from django'', ''import django'', ''django'']),
        (''Flask'', [''from flask'', ''import flask'', ''flask'']),
        (''Express'', [''express'' @ bslash @ ''('' @ bslash @ '')'', ''require'' @ bslash @ ''(['' @ squote @ bslash @ dquote @ '']express['' @ squote @ bslash @ dquote @ '']'', ''express'']),
        (''Spring Boot'', [''@SpringBootApplication'', ''spring-boot'', ''spring'']),
        (''Laravel'', [''use Illuminate'', ''laravel/framework'', ''laravel''])
       ]),
     (''databases'',
       [
        (''MongoDB'', [''mongodb://'', ''mongoose'', ''pymongo'', ''mongodb'']),
        (''PostgreSQL'', [''postgresql://'', ''psycopg2'', ''pg'', ''postgresql'']),
        (''MySQL'', [''mysql://'', ''mysql2'', ''pymysql'', ''mysql'']),
        (''Redis'', [''redis://'', ''redis'', ''jedis'', ''redis'']),
        (''SQLite'', [''sqlite3'', ''sqlite'', ''better-sqlite3'', ''sqlite''])
       ]),
     (''testing'',
       [
        (''Jest'', [''describe'' @ bslash @ ''('', ''test'' @ bslash @ ''('', ''it'' @ bslash @ ''('', ''jest'']),
        (''PyTest'', [''def test_'', ''pytest'', ''pytest'']),
        (''JUnit'', [''@Test'', ''junit'', ''junit'']),
        (''Mocha'', [''describe'' @ bslash @ ''('', ''it'' @ bslash @ ''('', ''mocha''])
       ])
    ]"

text \<open>
  A Python dictionary keeps its keys in the order of their first insertion: an association
  list, in which an assignment to a key already present replaces its value in place.
\<close>

fun dict_set :: "'k \<Rightarrow> 'v \<Rightarrow> ('k \<times> 'v) list \<Rightarrow> ('k \<times> 'v) list" where
  \<comment> \<open>\<^verbatim>\<open>d[k] = v\<close>\<close>
  "dict_set k v [] = [(k, v)]"
| "dict_set k v ((k', v') # rest) =
     (if k' = k then (k, v) # rest else (k', v') # dict_set k v rest)"

definition dict_get :: "('k \<times> 'v) list \<Rightarrow> 'k \<Rightarrow> 'v \<Rightarrow> 'v" where
  \<comment> \<open>\<^verbatim>\<open>d.get(k, default)\<close>\<close>
  "dict_get d k fallback = (case map_of d k of None \<Rightarrow> fallback | Some v \<Rightarrow> v)"

text \<open>
  The regular-expression engine is a parameter: \<open>match_count pattern content\<close> is
  \<^verbatim>\<open>len(re.findall(pattern, content, re.IGNORECASE | re.MULTILINE))\<close>. A confidence is a
  Python \<^verbatim>\<open>float\<close>, modelled by the real number it stands for; \<^verbatim>\<open>min\<close> and \<^verbatim>\<open>max\<close>
  return one of their arguments.
\<close>

definition pattern_confidence :: "(string \<Rightarrow> string \<Rightarrow> nat) \<Rightarrow> string \<Rightarrow> string list \<Rightarrow> real" where
  \<comment> \<open>the loop over the patterns of one technology, from \<open>confidence = 0.0\<close>\<close>
  "pattern_confidence match_count content patterns =
     fold (\<lambda>pattern confidence.
             if \<not> startswith pattern (bslash @ ''.'') then
               (let matches = match_count pattern content
                in if 0 < matches then max confidence (min (real matches * 0.3) 1.0)
                   else confidence)
             else confidence)
          patterns 0"

definition analyze_file_content :: "(string \<Rightarrow> string \<Rightarrow> nat) \<Rightarrow> string \<Rightarrow> (string \<times> real) list" where
  \<comment> \<open>\<^verbatim>\<open>_analyze_file_content\<close>\<close>
  "analyze_file_content match_count content =
     fold (\<lambda>(category, technologies) detected.
             fold (\<lambda>(tech_name, patterns) detected.
                     (let confidence = pattern_confidence match_count content patterns
                      in if 0 < confidence then dict_set tech_name confidence detected
                         else detected))
                  technologies detected)
          technology_patterns []"

fun dependency_hit :: "string list \<Rightarrow> string \<Rightarrow> bool" where
  \<comment> \<open>the loop over the patterns of one technology, up to its \<^verbatim>\<open>break\<close>\<close>
  "dependency_hit [] dep_lower = False"
| "dependency_hit (pattern # rest) dep_lower =
     (if str_in (lower pattern) dep_lower then True else dependency_hit rest dep_lower)"

definition analyze_dependency :: "string \<Rightarrow> (string \<times> real) list" where
  \<comment> \<open>\<^verbatim>\<open>_analyze_dependency\<close>\<close>
  "analyze_dependency dependency_name =
     (let dep_lower = lower dependency_name
      in fold (\<lambda>(category, technologies) detected.
                 fold (\<lambda>(tech_name, patterns) detected.
                         if dependency_hit patterns dep_lower then dict_set tech_name 0.8 detected
                         else detected)
                      technologies detected)
              technology_patterns [])"

fun get_technology_category_in ::
    "(string \<times> (string \<times> string list) list) list \<Rightarrow> string \<Rightarrow> string" where
  "get_technology_category_in [] tech_name = ''other''"
| "get_technology_category_in ((category, technologies) # rest) tech_name =
     (if tech_name \<in> fst ` set technologies then category
      else get_technology_category_in rest tech_name)"

definition get_technology_category :: "string \<Rightarrow> string" where
  \<comment> \<open>\<^verbatim>\<open>_get_technology_category\<close>\<close>
  "get_technology_category tech_name = get_technology_category_in technology_patterns tech_name"

definition merge_matches :: "(string \<times> real) list \<Rightarrow> (string \<times> real) list \<Rightarrow> (string \<times> real) list" where
  \<comment> \<open>\<^verbatim>\<open>for tech_name, confidence in tech_matches.items():
        detected[tech_name] = max(detected.get(tech_name, 0), confidence)\<close>\<close>
  "merge_matches tech_matches detected =
     fold (\<lambda>(tech_name, confidence) detected.
             dict_set tech_name (max (dict_get detected tech_name 0) confidence) detected)
          tech_matches detected"

definition detected_confidences ::
    "(string \<Rightarrow> string \<Rightarrow> nat) \<Rightarrow> source_file list \<Rightarrow> 'v dependency list \<Rightarrow> (string \<times> real) list" where
  \<comment> \<open>the dictionary \<open>detected\<close> of \<^verbatim>\<open>detect_technologies\<close> after its two loops, over
      \<^verbatim>\<open>repo.files\<close> and over \<^verbatim>\<open>repo.dependencies\<close>\<close>
  "detected_confidences match_count files dependencies =
     fold (\<lambda>dep detected. merge_matches (analyze_dependency (name dep)) detected)
          dependencies
          (fold (\<lambda>file_obj detected.
                   if file_content file_obj \<noteq> []
                   then merge_matches (analyze_file_content match_count (file_content file_obj)) detected
                   else detected)
                files [])"

text \<open>
  A detected technology is the dictionary with the keys \<^verbatim>\<open>name\<close>, \<^verbatim>\<open>category\<close> and
  \<^verbatim>\<open>confidence\<close>.
\<close>

record technology =
  tech :: string
  tech_category :: string
  tech_confidence :: real

definition detect_technologies ::
    "(string \<Rightarrow> string \<Rightarrow> nat) \<Rightarrow> source_file list \<Rightarrow> 'v dependency list \<Rightarrow> technology list" where
  "detect_technologies match_count files dependencies =
     map (\<lambda>(tech_name, confidence).
            \<lparr>tech = tech_name, tech_category = get_technology_category tech_name,
             tech_confidence = confidence\<rparr>)
         (filter (\<lambda>(tech_name, confidence). 0.1 < confidence)
                 (detected_confidences match_count files dependencies))"

text \<open>
  All the evidence of a run, one pair of technology and confidence per contribution: what
  \<^verbatim>\<open>_analyze_file_content\<close> returns for each file with content, then what
  \<^verbatim>\<open>_analyze_dependency\<close> returns for each dependency.
\<close>

definition evidence ::
    "(string \<Rightarrow> string \<Rightarrow> nat) \<Rightarrow> source_file list \<Rightarrow> 'v dependency list \<Rightarrow> (string \<times> real) list" where
  "evidence match_count files dependencies =
     concat (map (\<lambda>file_obj. if file_content file_obj \<noteq> []
                              then analyze_file_content match_count (file_content file_obj) else [])
                 files)
     @ concat (map (\<lambda>dep. analyze_dependency (name dep)) dependencies)"

definition contributions ::
    "(string \<Rightarrow> string \<Rightarrow> nat) \<Rightarrow> source_file list \<Rightarrow> 'v dependency list \<Rightarrow> string \<Rightarrow> real set" where
  "contributions match_count files dependencies tech_name =
     {confidence. (tech_name, confidence) \<in> set (evidence match_count files dependencies)}"

text \<open>
  One step of the merge, on one pair of \<^verbatim>\<open>tech_matches.items()\<close>.
\<close>

definition merge_step :: "string \<times> real \<Rightarrow> (string \<times> real) list \<Rightarrow> (string \<times> real) list" where
  "merge_step p detected = dict_set (fst p) (max (dict_get detected (fst p) 0) (snd p)) detected"

text \<open>
  The match counts of a sample run: what \<^verbatim>\<open>re.findall\<close> finds with the patterns of the
  catalog in the two texts \<^verbatim>\<open>from flask import x\<close> and \<^verbatim>\<open>import pytest\<close>.
\<close>

definition sample_match_count :: "string \<Rightarrow> string \<Rightarrow> nat" where
  "sample_match_count pattern content =
     (if content = ''from flask import x'' \<and> pattern \<in> set [''from flask'', ''flask''] then 1
      else if content = ''import pytest'' \<and> pattern = ''pytest'' then 1
      else 0)"

section \<open>Facts about the text operations\<close>

lemma split_from_not_Nil: "split_from sep cur s \<noteq> []"
  by (induction s arbitrary: cur) auto

lemma split_on_not_Nil: "split_on sep s \<noteq> []"
  by (simp add: split_on_def split_from_not_Nil)

lemma rstrip_chars_prefix: "prefix (rstrip_chars chars s) s"
proof -
  have "rev s = takeWhile (\<lambda>c. c \<in> set chars) (rev s) @ dropWhile (\<lambda>c. c \<in> set chars) (rev s)"
    by simp
  then have "s = rev (dropWhile (\<lambda>c. c \<in> set chars) (rev s)) @ rev (takeWhile (\<lambda>c. c \<in> set chars) (rev s))"
    by (metis rev_append rev_rev_ident)
  then show ?thesis
    unfolding rstrip_chars_def by (metis prefixI)
qed

lemma rstrip_chars_snoc: "c \<in> set chars \<Longrightarrow> rstrip_chars chars (s @ [c]) = rstrip_chars chars s"
  by (simp add: rstrip_chars_def)

lemma endswith_char: "endswith s [c] \<longleftrightarrow> s \<noteq> [] \<and> last s = c"
proof (cases s rule: rev_cases)
  case Nil
  then show ?thesis by (simp add: endswith_def)
next
  case (snoc ys y)
  then show ?thesis by (auto simp: endswith_def)
qed

lemma ignored_iff: "ignored ps fp fn \<longleftrightarrow> (\<exists>p \<in> set ps. pattern_hit p fp fn)"
  by (induction ps) auto

lemma files_to_analyze_eligible:
  "set (files_to_analyze ignore_patterns file_tree) \<subseteq> {item. is_eligible ignore_patterns item}"
  unfolding files_to_analyze_def by (auto dest: in_set_takeD)

lemmas filter_eval = is_eligible_def split_on_def size_ceiling_def path_suffix_def rfind_def
  lower_def lower_char_def upper_table_def lower_table_def excluded_extensions_def
  pattern_hit_def startswith_def endswith_def rstrip_chars_def lstrip_chars_def

lemma ignored_trace_fst: "fst (ignored_trace ps fp fn) = ignored ps fp fn"
  by (induction ps) (auto split: prod.splits)

lemma ignored_trace_checks:
  "ExtensionCheck \<notin> set (snd (ignored_trace ps fp fn))
   \<and> (ps \<noteq> [] \<longrightarrow> snd (ignored_trace ps fp fn) \<noteq> []
        \<and> hd (snd (ignored_trace ps fp fn)) = PatternCheck (hd ps))"
  by (induction ps) (auto split: prod.splits)

lemma is_eligible_trace_fst: "fst (is_eligible_trace ps item) = is_eligible ps item"
  using ignored_trace_fst [of ps "item_path item" "last (split_on CHR ''/'' (item_path item))"]
  by (auto simp: is_eligible_trace_def is_eligible_def Let_def split: prod.splits)

subsection \<open>Counting and rounding\<close>

lemma fold_add: "fold (\<lambda>k c. c + real (f k) * 0.5) ks c0 = c0 + 0.5 * real (sum_list (map f ks))"
  by (induction ks arbitrary: c0) (simp_all add: algebra_simps)

lemma round2_tenths: "round2 (real n / 10) = real n / 10"
proof -
  have "real n / 10 * 100 = of_int (int (10 * n))" by simp
  then have "round_half_even (real n / 10 * 100) = int (10 * n)"
    unfolding round_half_even_def by (simp only: floor_of_int Let_def) simp
  then show ?thesis by (simp add: round2_def)
qed

lemma overlap_border:
  assumes "prefix w s" and "prefix w (drop j s)" and "j \<le> length w"
  shows "prefix (drop j w) w"
proof -
  from assms(1) obtain r where s: "s = w @ r" by (auto simp: prefix_def)
  with assms(3) have "drop j s = drop j w @ r" by simp
  with assms(2) have "prefix w (drop j w @ r)" by simp
  moreover have "prefix (drop j w) (drop j w @ r)" by simp
  moreover have "length (drop j w) \<le> length w" by simp
  ultimately show ?thesis using prefix_length_prefix by blast
qed

lemma unbordered_no_overlap:
  assumes "unbordered w" and "prefix w s" and "0 < j" and "j < length w"
  shows "\<not> prefix w (drop j s)"
proof
  assume "prefix w (drop j s)"
  with assms(2,4) have "prefix (drop j w) w" by (intro overlap_border [of w s j]) simp_all
  moreover from assms(1,3,4) have "\<not> prefix (drop j w) w"
    by (simp add: unbordered_def list_all_iff)
  ultimately show False by blast
qed

lemma occurrences_drop_step:
  assumes "\<not> prefix w (drop j s)"
  shows "occurrences w (drop j s) = occurrences w (drop (Suc j) s)"
proof (cases "drop j s")
  case Nil
  then have "length s \<le> j" by simp
  then have "drop (Suc j) s = []" by simp
  with Nil show ?thesis by simp
next
  case (Cons c cs)
  have "drop (Suc j) s = tl (drop j s)" by (simp add: drop_Suc tl_drop)
  with Cons have "drop (Suc j) s = cs" by simp
  with Cons assms show ?thesis by simp
qed

lemma occurrences_skip:
  assumes "unbordered w" and "prefix w s"
  shows "1 \<le> j \<Longrightarrow> j \<le> length w \<Longrightarrow> occurrences w (drop 1 s) = occurrences w (drop j s)"
proof (induction j)
  case 0
  then show ?case by simp
next
  case (Suc j)
  show ?case
  proof (cases "j = 0")
    case True
    then show ?thesis by simp
  next
    case False
    with Suc have "occurrences w (drop 1 s) = occurrences w (drop j s)" by simp
    moreover have "\<not> prefix w (drop j s)"
      using unbordered_no_overlap [OF assms, of j] False Suc.prems by simp
    ultimately show ?thesis by (simp add: occurrences_drop_step)
  qed
qed

lemma count_sub_occurrences: "unbordered w \<Longrightarrow> count_sub w s = occurrences w s"
proof (induction w s rule: count_sub.induct)
  case (1 sub)
  then show ?case by (simp add: unbordered_def)
next
  case (2 sub c cs)
  from "2.prems" have ne: "sub \<noteq> []" by (simp add: unbordered_def)
  show ?case
  proof (cases "prefix sub (c # cs)")
    case True
    have "occurrences sub (drop 1 (c # cs)) = occurrences sub (drop (length sub) (c # cs))"
      using occurrences_skip [OF "2.prems" True, of "length sub"] ne
      by (simp add: Suc_le_eq)
    moreover have "drop (length sub) (c # cs) = drop (length sub - 1) cs"
      using ne by (cases sub) simp_all
    ultimately have "occurrences sub cs = occurrences sub (drop (length sub - 1) cs)" by simp
    with True ne "2.IH"(1) "2.prems" show ?thesis by simp
  next
    case False
    with ne "2.IH"(2) "2.prems" show ?thesis by simp
  qed
qed


lemma control_structures_unbordered: "k \<in> set control_structures \<Longrightarrow> unbordered k"
  unfolding control_structures_def by (auto simp: unbordered_def)


lemma length_split_from: "length (split_from sep cur s) = Suc (length (filter (\<lambda>c. c = sep) s))"
  by (induction s arbitrary: cur) simp_all

lemma length_split_on: "length (split_on sep s) = Suc (length (filter (\<lambda>c. c = sep) s))"
  by (simp add: split_on_def length_split_from)

lemma prefix_append_disjoint:
  assumes "set w \<inter> set t = {}"
  shows "prefix w (s @ t) \<longleftrightarrow> prefix w s"
proof
  assume "prefix w (s @ t)"
  then consider "prefix w s" | us where "w = s @ us" "prefix us t"
    by (auto simp: prefix_append)
  then show "prefix w s"
  proof cases
    case 1
    then show ?thesis .
  next
    case 2
    have "us = []"
    proof (rule ccontr)
      assume "us \<noteq> []"
      then obtain u vs where "us = u # vs" by (cases us) auto
      with 2 have "u \<in> set w" "u \<in> set t" by (auto simp: prefix_def)
      with assms show False by blast
    qed
    with 2 show ?thesis by simp
  qed
next
  assume "prefix w s"
  then show "prefix w (s @ t)" by (rule prefix_prefix)
qed

lemma occurrences_none: "w \<noteq> [] \<Longrightarrow> set w \<inter> set t = {} \<Longrightarrow> occurrences w t = 0"
proof (induction t)
  case Nil
  then show ?case by simp
next
  case (Cons c t)
  from Cons.prems have "\<not> prefix w (c # t)"
    by (cases w) (auto simp: prefix_def)
  with Cons show ?case by simp
qed

lemma occurrences_append_disjoint:
  "w \<noteq> [] \<Longrightarrow> set w \<inter> set t = {} \<Longrightarrow> occurrences w (s @ t) = occurrences w s"
proof (induction s)
  case Nil
  then show ?case by (simp add: occurrences_none)
next
  case (Cons c s)
  from Cons.prems(2) have "prefix w ((c # s) @ t) \<longleftrightarrow> prefix w (c # s)"
    by (rule prefix_append_disjoint)
  with Cons show ?case by simp
qed

lemma lower_newlines: "lower (s @ replicate n CHR 0x0A) = lower s @ replicate n CHR 0x0A"
  by (simp add: lower_def lower_char_def upper_table_def lower_table_def)

lemma lower_sample: "lower ''if if if if if for for for'' = ''if if if if if for for for''"
  by (simp add: lower_def lower_char_def upper_table_def lower_table_def)

lemma length_split_on_newlines:
  "CHR 0x0A \<notin> set s \<Longrightarrow> length (split_on CHR 0x0A (s @ replicate n CHR 0x0A)) = Suc n"
proof -
  assume "CHR 0x0A \<notin> set s"
  then have "filter (\<lambda>c. c = CHR 0x0A) s = []" by (induction s) auto
  then show ?thesis by (simp add: length_split_on)
qed

lemma occurrences_sample:
  "w \<noteq> [] \<Longrightarrow> CHR 0x0A \<notin> set w \<Longrightarrow>
   occurrences w (lower (''if if if if if for for for'' @ replicate n CHR 0x0A))
     = occurrences w ''if if if if if for for for''"
proof -
  assume w: "w \<noteq> []" "CHR 0x0A \<notin> set w"
  then have "set w \<inter> set (replicate n CHR 0x0A) = {}" by auto
  with w(1) have "occurrences w (''if if if if if for for for'' @ replicate n CHR 0x0A)
      = occurrences w ''if if if if if for for for''"
    by (rule occurrences_append_disjoint)
  then show ?thesis
    by (simp only: lower_newlines lower_sample)
qed

subsection \<open>The parsers return\<close>





lemma py_index_in_range: "i < length xs \<Longrightarrow> \<exists>x. py_index xs i = Inr x"
  by (simp add: py_index_def)






lemmas text_eval = strip_def lstrip_def rstrip_def isspace_def startswith_def endswith_def
  split_on_def split_any_def split_space_def py_index_def version_operators_def




subsection \<open>Counting the nodes \<^verbatim>\<open>ast.walk\<close> yields\<close>

lemma count_definitions_walk_queue:
  "count_definitions (walk_queue todo) (f, c)
     = (f + sum_list (map (count_class FunctionDef) todo),
        c + sum_list (map (count_class ClassDef) todo))"
proof (induction todo arbitrary: f c rule: walk_queue.induct)
  case 1
  then show ?case by simp
next
  case (2 cls children todo)
  then show ?case by simp
qed

lemma count_definitions_walk:
  "count_definitions (walk tree) (0, 0) = (count_class FunctionDef tree, count_class ClassDef tree)"
  by (simp add: walk_def count_definitions_walk_queue)


lemma analyze_python_code_parsed:
  "parse (file_content file_obj) = Inr tree \<Longrightarrow>
   analyze_python_code parse file_obj
     = Inr (file_obj\<lparr>function_count := count_class FunctionDef tree,
                       class_count := count_class ClassDef tree\<rparr>)"
  by (simp add: analyze_python_code_def count_definitions_walk)

lemma analyze_python_code_failed:
  "parse (file_content file_obj) = Inl e \<Longrightarrow> analyze_python_code parse file_obj = Inr file_obj"
  by (simp add: analyze_python_code_def)

subsection \<open>The dictionary of confidences\<close>

lemma map_of_dict_set: "map_of (dict_set k v d) = (map_of d)(k \<mapsto> v)"
  by (induction d) (auto simp: fun_eq_iff)

lemma keys_dict_set: "fst ` set (dict_set k v d) = insert k (fst ` set d)"
proof (induction d)
  case Nil
  then show ?case by simp
next
  case (Cons p d)
  obtain k' v' where "p = (k', v')" by (cases p)
  with Cons show ?case by (cases "k' = k") auto
qed

lemma distinct_dict_set: "distinct (map fst d) \<Longrightarrow> distinct (map fst (dict_set k v d))"
proof (induction d)
  case Nil
  then show ?case by simp
next
  case (Cons p d)
  obtain k' v' where p: "p = (k', v')" by (cases p)
  show ?case
  proof (cases "k' = k")
    case True
    with Cons.prems p show ?thesis by simp
  next
    case False
    have "k' \<notin> fst ` set (dict_set k v d)"
      using Cons.prems p False by (simp add: keys_dict_set)
    with Cons p False show ?thesis by simp
  qed
qed

lemma merge_step_eq:
  "merge_step = (\<lambda>(tech_name, confidence) detected.
      dict_set tech_name (max (dict_get detected tech_name 0) confidence) detected)"
  by (auto simp: fun_eq_iff merge_step_def)

lemma merge_matches_fold: "merge_matches tech_matches detected = fold merge_step tech_matches detected"
  by (simp only: merge_matches_def merge_step_eq)

lemma distinct_merge: "distinct (map fst d) \<Longrightarrow> distinct (map fst (fold merge_step ev d))"
  by (induction ev arbitrary: d) (simp_all add: merge_step_def distinct_dict_set)

lemma fold_max_Max: "fold max cs (a::real) = Max (insert a (set cs))"
proof -
  have "fold max cs a = Max (set (a # cs))" by (simp only: Max.set_eq_fold)
  then show ?thesis by simp
qed

lemma map_of_merge:
  "map_of (fold merge_step ev d) t =
     (if t \<in> fst ` set ev
      then Some (Max (insert (dict_get d t 0) {c. (t, c) \<in> set ev}))
      else map_of d t)"
proof (induction ev arbitrary: d)
  case Nil
  then show ?case by simp
next
  case (Cons p ev)
  obtain t' c' where p: "p = (t', c')" by (cases p)
  let ?d = "merge_step p d"
  have fin: "finite {c. (t, c) \<in> set ev}"
  proof -
    have "{c. (t, c) \<in> set ev} \<subseteq> snd ` set ev" by force
    then show ?thesis by (rule finite_subset) simp
  qed
  have m: "map_of ?d = (map_of d)(t' \<mapsto> max (dict_get d t' 0) c')"
    by (simp add: merge_step_def p map_of_dict_set)
  have g: "dict_get ?d t 0 = (if t = t' then max (dict_get d t 0) c' else dict_get d t 0)"
    by (simp add: dict_get_def m)
  show ?case
  proof (cases "t \<in> fst ` set ev")
    case True
    then have ne: "{c. (t, c) \<in> set ev} \<noteq> {}" by force
    have "map_of (fold merge_step (p # ev) d) t
        = Some (Max (insert (dict_get ?d t 0) {c. (t, c) \<in> set ev}))"
      using Cons [of ?d] True by simp
    also have "Max (insert (dict_get ?d t 0) {c. (t, c) \<in> set ev})
        = Max (insert (dict_get d t 0) {c. (t, c) \<in> set (p # ev)})"
    proof (cases "t = t'")
      case True
      have "{c. (t, c) \<in> set (p # ev)} = insert c' {c. (t, c) \<in> set ev}"
        using True p by auto
      moreover have "Max (insert (max (dict_get d t 0) c') {c. (t, c) \<in> set ev})
          = Max (insert (dict_get d t 0) (insert c' {c. (t, c) \<in> set ev}))"
        using fin ne by (simp add: max.assoc)
      ultimately show ?thesis using True g by simp
    next
      case False
      then have "{c. (t, c) \<in> set (p # ev)} = {c. (t, c) \<in> set ev}"
        using p by auto
      with False g show ?thesis by simp
    qed
    finally show ?thesis using True by simp
  next
    case False
    have "map_of (fold merge_step (p # ev) d) t = map_of ?d t"
      using Cons [of ?d] False by simp
    then have r: "map_of (fold merge_step (p # ev) d) t
        = (if t = t' then Some (max (dict_get d t 0) c') else map_of d t)"
      by (simp add: m)
    show ?thesis
    proof (cases "t = t'")
      case True
      have "{c. (t, c) \<in> set (p # ev)} = {c'}"
        using True p False by force
      with True p r show ?thesis
        by (simp add: max.commute)
    next
      case False
      with p \<open>t \<notin> fst ` set ev\<close> r show ?thesis
        by simp
    qed
  qed
qed


lemma fold_merge_concat:
  "fold (\<lambda>x detected. merge_matches (g x) detected) xs d = fold merge_step (concat (map g xs)) d"
  by (induction xs arbitrary: d) (simp_all add: merge_matches_fold)

lemma fold_merge_files:
  "fold (\<lambda>file_obj detected.
           if file_content file_obj \<noteq> [] then merge_matches (g file_obj) detected else detected)
        files d
   = fold merge_step
       (concat (map (\<lambda>file_obj. if file_content file_obj \<noteq> [] then g file_obj else []) files)) d"
  by (induction files arbitrary: d) (simp_all add: merge_matches_fold)

lemma detected_confidences_fold:
  "detected_confidences mc files deps = fold merge_step (evidence mc files deps) []"
  unfolding detected_confidences_def evidence_def
  by (simp only: fold_merge_files fold_merge_concat fold_append comp_apply)

lemma set_dict_set: "set (dict_set k v d) \<subseteq> insert (k, v) (set d)"
  by (induction d) (auto split: if_splits)

lemma positive_dict_set:
  "0 < v \<Longrightarrow> \<forall>p \<in> set d. 0 < snd p \<Longrightarrow> \<forall>p \<in> set (dict_set k (v::real) d). 0 < snd p"
  using set_dict_set [of k v d] by auto

lemma analyze_file_content_positive:
  "\<forall>p \<in> set (analyze_file_content mc content). 0 < snd p"
proof -
  let ?P = "\<lambda>d :: (string \<times> real) list. \<forall>p \<in> set d. 0 < snd p"
  have inner: "?P (fold (\<lambda>(tech_name, patterns) detected.
                     (let confidence = pattern_confidence mc content patterns
                      in if 0 < confidence then dict_set tech_name confidence detected
                         else detected)) technologies d)"
    if "?P d" for technologies d
    using that
  proof (induction technologies arbitrary: d)
    case Nil
    then show ?case by simp
  next
    case (Cons a technologies)
    obtain tn ps where a: "a = (tn, ps)" by (cases a)
    have "?P (let confidence = pattern_confidence mc content ps
              in if 0 < confidence then dict_set tn confidence d else d)"
      using Cons.prems positive_dict_set [of "pattern_confidence mc content ps" d tn]
      by (simp add: Let_def)
    then show ?case using Cons.IH a by simp
  qed
  have outer: "?P (fold (\<lambda>(category, technologies) detected.
             fold (\<lambda>(tech_name, patterns) detected.
                     (let confidence = pattern_confidence mc content patterns
                      in if 0 < confidence then dict_set tech_name confidence detected
                         else detected))
                  technologies detected) catalog d)"
    if "?P d" for catalog d
    using that
  proof (induction catalog arbitrary: d)
    case Nil
    then show ?case by simp
  next
    case (Cons a catalog)
    obtain cat ts where a: "a = (cat, ts)" by (cases a)
    from Cons.prems have "?P (fold (\<lambda>(tech_name, patterns) detected.
                     (let confidence = pattern_confidence mc content patterns
                      in if 0 < confidence then dict_set tech_name confidence detected
                         else detected)) ts d)"
      by (rule inner)
    then show ?case using Cons.IH a by simp
  qed
  show ?thesis unfolding analyze_file_content_def by (rule outer) simp
qed

lemma analyze_dependency_positive:
  "\<forall>p \<in> set (analyze_dependency dependency_name). 0 < snd p"
proof -
  let ?P = "\<lambda>d :: (string \<times> real) list. \<forall>p \<in> set d. 0 < snd p"
  have inner: "?P (fold (\<lambda>(tech_name, patterns) detected.
                         if dependency_hit patterns dl then dict_set tech_name 0.8 detected
                         else detected) technologies d)"
    if "?P d" for technologies d dl
    using that
  proof (induction technologies arbitrary: d)
    case Nil
    then show ?case by simp
  next
    case (Cons a technologies)
    obtain tn ps where a: "a = (tn, ps)" by (cases a)
    have "?P (if dependency_hit ps dl then dict_set tn 0.8 d else d)"
      using Cons.prems positive_dict_set [of "0.8" d tn] by simp
    then show ?case using Cons.IH a by simp
  qed
  have outer: "?P (fold (\<lambda>(category, technologies) detected.
                 fold (\<lambda>(tech_name, patterns) detected.
                         if dependency_hit patterns dl then dict_set tech_name 0.8 detected
                         else detected)
                      technologies detected) catalog d)"
    if "?P d" for catalog d dl
    using that
  proof (induction catalog arbitrary: d)
    case Nil
    then show ?case by simp
  next
    case (Cons a catalog)
    obtain cat ts where a: "a = (cat, ts)" by (cases a)
    from Cons.prems have "?P (fold (\<lambda>(tech_name, patterns) detected.
                         if dependency_hit patterns dl then dict_set tech_name 0.8 detected
                         else detected) ts d)"
      by (rule inner)
    then show ?case using Cons.IH a by simp
  qed
  show ?thesis unfolding analyze_dependency_def Let_def by (rule outer) simp
qed

lemma evidence_positive: "(t, c) \<in> set (evidence mc files deps) \<Longrightarrow> 0 < c"
  using analyze_file_content_positive analyze_dependency_positive
  by (fastforce simp: evidence_def split: if_splits)

lemma finite_contributions: "finite (contributions mc files deps t)"
proof -
  have "contributions mc files deps t \<subseteq> snd ` set (evidence mc files deps)"
    by (force simp: contributions_def)
  then show ?thesis by (rule finite_subset) simp
qed

lemma map_of_detected_confidences:
  "map_of (detected_confidences mc files deps) t
     = (if contributions mc files deps t = {} then None
        else Some (Max (contributions mc files deps t)))"
proof (cases "contributions mc files deps t = {}")
  case True
  then have "t \<notin> fst ` set (evidence mc files deps)"
    by (force simp: contributions_def)
  with True show ?thesis
    by (simp add: detected_confidences_fold map_of_merge)
next
  case False
  then have "t \<in> fst ` set (evidence mc files deps)"
    by (force simp: contributions_def)
  then have "map_of (detected_confidences mc files deps) t
      = Some (Max (insert 0 (contributions mc files deps t)))"
    by (simp add: detected_confidences_fold map_of_merge contributions_def dict_get_def)
  moreover have "0 < Max (contributions mc files deps t)"
    using False finite_contributions [of mc files deps t] evidence_positive [of t _ mc files deps]
    by (auto simp: contributions_def Max_gr_iff)
  then have "Max (insert 0 (contributions mc files deps t)) = Max (contributions mc files deps t)"
    using False finite_contributions [of mc files deps t] by simp
  ultimately show ?thesis using False by simp
qed

lemma distinct_detected_confidences: "distinct (map fst (detected_confidences mc files deps))"
  by (simp add: detected_confidences_fold distinct_merge)

lemma set_detect_technologies:
  "set (detect_technologies mc files deps)
     = {\<lparr>tech = t, tech_category = get_technology_category t, tech_confidence = c\<rparr> | t c.
          map_of (detected_confidences mc files deps) t = Some c \<and> 0.1 < c}"
  using map_of_eq_Some_iff [OF distinct_detected_confidences [of mc files deps]]
  by (auto simp: detect_technologies_def image_iff)

lemma set_evidence_cong:
  assumes "set files' = set files" and "set deps' = set deps"
  shows "set (evidence mc files' deps') = set (evidence mc files deps)"
  using assms by (simp add: evidence_def)

lemma sample_file_evidence:
  "analyze_file_content
     sample_match_count
     ''from flask import x''
   = [(''Flask'', 0.3)]"
  by code_simp

lemma sample_dependency_evidence: "analyze_dependency ''flask'' = [(''Flask'', 0.8)]"
  by code_simp

lemma sample_category: "get_technology_category ''Flask'' = ''frameworks''"
  by code_simp

section \<open>The claims about the path filter\<close>

text \<open>
  Claim C1. The claim reads: a blob whose extension is not on the denylist and whose path
  matches no ignore pattern is rejected exactly when its size exceeds 100,000 bytes, so a
  file of exactly 100,000 bytes is accepted. The test in the source is
  \<^verbatim>\<open>item["size"] < 100000\<close>, under the comment \<^verbatim>\<open>Max 100KB\<close>. The theorem evaluates
  the filter at the ceiling: with no ignore pattern, \<^verbatim>\<open>src/main.py\<close> of 100,000 bytes is
  rejected, and the same file one byte smaller is accepted.
\<close>

theorem C1_file_at_ceiling_rejected:
  "\<not> is_eligible [] \<lparr>item_type = ''blob'', item_path = ''src/main.py'', item_size = 100000\<rparr>
   \<and> is_eligible [] \<lparr>item_type = ''blob'', item_path = ''src/main.py'', item_size = 99999\<rparr>"
  by (simp add: filter_eval)

text \<open>
  Claim C10. An ignore pattern that ends with a slash excludes every blob whose full path
  starts with the pattern without its last character; nothing asks for a path separator
  after that prefix. (The source strips every trailing slash with \<^verbatim>\<open>rstrip('/')\<close>,
  which leaves a prefix of the pattern without its last slash, so the test succeeds all
  the more.) The blob is then not eligible, whatever its size and extension, and is not
  among the files to analyze.
\<close>

theorem C10_directory_pattern_is_a_prefix_test:
  assumes "pattern \<in> set ignore_patterns"
    and "endswith pattern ''/''"
    and "startswith (item_path item) (butlast pattern)"
  shows "\<not> is_eligible ignore_patterns item
         \<and> item \<notin> set (files_to_analyze ignore_patterns file_tree)"
proof -
  from assms(2) have ne: "pattern \<noteq> []" and l: "last pattern = CHR ''/''"
    by (simp_all add: endswith_char)
  have p: "butlast pattern @ ''/'' = pattern"
    using append_butlast_last_id [OF ne] l by simp
  have "rstrip_chars ''/'' (butlast pattern @ ''/'') = rstrip_chars ''/'' (butlast pattern)"
    by (rule rstrip_chars_snoc) simp
  then have "rstrip_chars ''/'' pattern = rstrip_chars ''/'' (butlast pattern)"
    by (simp only: p)
  then have "prefix (rstrip_chars ''/'' pattern) (butlast pattern)"
    by (simp add: rstrip_chars_prefix)
  moreover from assms(3) have "prefix (butlast pattern) (item_path item)"
    by (simp add: startswith_def)
  ultimately have "startswith (item_path item) (rstrip_chars ''/'' pattern)"
    unfolding startswith_def by (rule prefix_order.trans)
  with assms(2)
  have "pattern_hit pattern (item_path item) (last (split_on CHR ''/'' (item_path item)))"
    by (simp add: pattern_hit_def)
  with assms(1)
  have "ignored ignore_patterns (item_path item) (last (split_on CHR ''/'' (item_path item)))"
    unfolding ignored_iff by blast
  then have n: "\<not> is_eligible ignore_patterns item"
    by (simp add: is_eligible_def Let_def)
  with files_to_analyze_eligible [of ignore_patterns file_tree] show ?thesis
    by blast
qed

text \<open>
  The pattern \<^verbatim>\<open>dist/\<close> at work: it excludes \<^verbatim>\<open>dist/bundle.js\<close>, and also
  \<^verbatim>\<open>distribution/file.js\<close> and \<^verbatim>\<open>distfile.txt\<close>, which the filter accepts when
  the pattern is absent; \<^verbatim>\<open>src/dist/file.js\<close> stays eligible.
\<close>

theorem C10_dist_pattern_witness:
  "\<not> is_eligible [''dist/''] \<lparr>item_type = ''blob'', item_path = ''distribution/file.js'', item_size = 10\<rparr>
   \<and> \<not> is_eligible [''dist/''] \<lparr>item_type = ''blob'', item_path = ''distfile.txt'', item_size = 10\<rparr>
   \<and> \<not> is_eligible [''dist/''] \<lparr>item_type = ''blob'', item_path = ''dist/bundle.js'', item_size = 10\<rparr>
   \<and> is_eligible [] \<lparr>item_type = ''blob'', item_path = ''distribution/file.js'', item_size = 10\<rparr>
   \<and> is_eligible [] \<lparr>item_type = ''blob'', item_path = ''distfile.txt'', item_size = 10\<rparr>
   \<and> is_eligible [''dist/''] \<lparr>item_type = ''blob'', item_path = ''src/dist/file.js'', item_size = 10\<rparr>"
proof -
  have a: "\<not> is_eligible [''dist/''] \<lparr>item_type = ''blob'', item_path = ''distribution/file.js'', item_size = 10\<rparr>"
    using C10_directory_pattern_is_a_prefix_test [of "''dist/''" "[''dist/'']"
      "\<lparr>item_type = ''blob'', item_path = ''distribution/file.js'', item_size = 10\<rparr>" "[]"]
    by (simp add: startswith_def endswith_def)
  have b: "\<not> is_eligible [''dist/''] \<lparr>item_type = ''blob'', item_path = ''distfile.txt'', item_size = 10\<rparr>"
    using C10_directory_pattern_is_a_prefix_test [of "''dist/''" "[''dist/'']"
      "\<lparr>item_type = ''blob'', item_path = ''distfile.txt'', item_size = 10\<rparr>" "[]"]
    by (simp add: startswith_def endswith_def)
  have c: "\<not> is_eligible [''dist/''] \<lparr>item_type = ''blob'', item_path = ''dist/bundle.js'', item_size = 10\<rparr>"
    using C10_directory_pattern_is_a_prefix_test [of "''dist/''" "[''dist/'']"
      "\<lparr>item_type = ''blob'', item_path = ''dist/bundle.js'', item_size = 10\<rparr>" "[]"]
    by (simp add: startswith_def endswith_def)
  have d: "is_eligible [] \<lparr>item_type = ''blob'', item_path = ''distribution/file.js'', item_size = 10\<rparr>"
    by (simp add: filter_eval)
  have e: "is_eligible [] \<lparr>item_type = ''blob'', item_path = ''distfile.txt'', item_size = 10\<rparr>"
    by (simp add: filter_eval)
  have f: "is_eligible [''dist/''] \<lparr>item_type = ''blob'', item_path = ''src/dist/file.js'', item_size = 10\<rparr>"
    by (simp add: filter_eval)
  from a b c d e f show ?thesis by blast
qed

text \<open>
  Claim C9, as stated: the checks run in the order extension, size, ignore patterns, and
  for a file with a denylisted extension and a size over the ceiling the ignore patterns
  are never consulted. The source runs the loop over the patterns first, for every blob,
  and only then tests \<^verbatim>\<open>not ignored and size < 100000 and extension not in ...\<close>.
  For \<^verbatim>\<open>assets/logo.png\<close> of 200,000 bytes and the pattern \<^verbatim>\<open>dist/\<close> the pattern is
  consulted, the size test follows and ends the conjunction, and the extension is never
  looked at.
\<close>

theorem C9_patterns_are_consulted_first:
  "is_eligible_trace [''dist/'']
     \<lparr>item_type = ''blob'', item_path = ''assets/logo.png'', item_size = 200000\<rparr>
   = (False, [PatternCheck ''dist/'', SizeCheck])"
  by (simp add: is_eligible_trace_def split_on_def size_ceiling_def pattern_hit_def
      startswith_def endswith_def rstrip_chars_def lstrip_chars_def)

text \<open>
  Claim C9, amended. For every blob whose extension is on the denylist and whose size
  exceeds the ceiling, the filter rejects it, and its decision is the same under every
  set of ignore patterns. The order of evaluation is ignore patterns, then size, then
  extension: when there is a pattern, the first check made is a pattern check, and the
  extension denylist is the check never reached for such a file.
\<close>

theorem C9_oversized_denylisted_rejected:
  assumes "lower (path_suffix (last (split_on CHR ''/'' (item_path item)))) \<in> set excluded_extensions"
    and "size_ceiling < item_size item"
  shows "fst (is_eligible_trace ps item) = False
       \<and> fst (is_eligible_trace ps' item) = fst (is_eligible_trace ps item)
       \<and> is_eligible ps item = False
       \<and> ExtensionCheck \<notin> set (snd (is_eligible_trace ps item))
       \<and> (ps \<noteq> [] \<longrightarrow> hd (snd (is_eligible_trace ps item)) = PatternCheck (hd ps))"
proof -
  have r: "\<And>qs. fst (is_eligible_trace qs item) = False"
    using assms by (simp add: is_eligible_trace_fst is_eligible_def Let_def)
  have e: "ExtensionCheck \<notin> set (snd (is_eligible_trace ps item))"
    using assms(2) ignored_trace_checks [of ps "item_path item" "last (split_on CHR ''/'' (item_path item))"]
    by (auto simp: is_eligible_trace_def Let_def split: prod.splits)
  have h: "ps \<noteq> [] \<longrightarrow> hd (snd (is_eligible_trace ps item)) = PatternCheck (hd ps)"
    using ignored_trace_checks [of ps "item_path item" "last (split_on CHR ''/'' (item_path item))"]
    by (auto simp: is_eligible_trace_def Let_def split: prod.splits)
  from r [of ps] r [of ps'] e h show ?thesis
    using is_eligible_trace_fst [of ps item] by simp
qed

theorem C9_oversized_denylisted_witness:
  "lower (path_suffix (last (split_on CHR ''/'' ''assets/logo.png''))) \<in> set excluded_extensions
   \<and> size_ceiling < 200000
   \<and> fst (is_eligible_trace [''dist/'', ''*.log'']
        \<lparr>item_type = ''blob'', item_path = ''assets/logo.png'', item_size = 200000\<rparr>) = False
   \<and> fst (is_eligible_trace []
        \<lparr>item_type = ''blob'', item_path = ''assets/logo.png'', item_size = 200000\<rparr>) = False
   \<and> hd (snd (is_eligible_trace [''dist/'', ''*.log'']
        \<lparr>item_type = ''blob'', item_path = ''assets/logo.png'', item_size = 200000\<rparr>))
       = PatternCheck ''dist/''"
proof -
  have a: "lower (path_suffix (last (split_on CHR ''/'' ''assets/logo.png''))) \<in> set excluded_extensions"
    by (simp add: filter_eval)
  have b: "size_ceiling < 200000"
    by (simp add: size_ceiling_def)
  from a b show ?thesis
    using C9_oversized_denylisted_rejected [of
      "\<lparr>item_type = ''blob'', item_path = ''assets/logo.png'', item_size = 200000\<rparr>"
      "[''dist/'', ''*.log'']" "[]"]
    by simp
qed

section \<open>The claim about the complexity score\<close>

text \<open>
  Claim C8. For every content, the complexity score is 0.1 times the line count plus 0.5
  times the sum, over \<^verbatim>\<open>if, for, while, switch, case, try, catch\<close>, of the number of
  positions of the lower-cased content at which the keyword occurs, rounded to two decimal
  places. The sum is a number of tenths, so the rounding leaves it as it is. A content of
  1,000 lines with five occurrences of \<^verbatim>\<open>if\<close>, three of \<^verbatim>\<open>for\<close> and none of the other
  keywords scores 104.
\<close>

theorem C8_complexity_score:
  "calculate_complexity content
     = round2 (0.1 * real (length (split_on CHR 0x0A content))
               + 0.5 * real (\<Sum>k\<leftarrow>control_structures. occurrences k (lower content)))
   \<and> calculate_complexity content
     = real (length (split_on CHR 0x0A content)
             + 5 * (\<Sum>k\<leftarrow>control_structures. occurrences k (lower content))) / 10
   \<and> (length (split_on CHR 0x0A content) = 1000
        \<and> occurrences ''if'' (lower content) = 5
        \<and> occurrences ''for'' (lower content) = 3
        \<and> occurrences ''while'' (lower content) = 0
        \<and> occurrences ''switch'' (lower content) = 0
        \<and> occurrences ''case'' (lower content) = 0
        \<and> occurrences ''try'' (lower content) = 0
        \<and> occurrences ''catch'' (lower content) = 0
       \<longrightarrow> calculate_complexity content = 104)"
proof -
  let ?L = "length (split_on CHR 0x0A content)"
  let ?K = "\<Sum>k\<leftarrow>control_structures. occurrences k (lower content)"
  have same: "map (\<lambda>k. count_sub k (lower content)) control_structures
              = map (\<lambda>k. occurrences k (lower content)) control_structures"
    by (rule map_cong [OF refl]) (simp add: count_sub_occurrences control_structures_unbordered)
  have tenths: "0.1 * real ?L + 0.5 * real ?K = real (?L + 5 * ?K) / 10"
    by simp
  have score: "calculate_complexity content = round2 (0.1 * real ?L + 0.5 * real ?K)"
    unfolding calculate_complexity_def Let_def fold_add same by (simp add: mult.commute)
  then have exact: "calculate_complexity content = real (?L + 5 * ?K) / 10"
    by (simp only: tenths round2_tenths)
  have "calculate_complexity content = 104"
    if "?L = 1000" "occurrences ''if'' (lower content) = 5"
       "occurrences ''for'' (lower content) = 3" "occurrences ''while'' (lower content) = 0"
       "occurrences ''switch'' (lower content) = 0" "occurrences ''case'' (lower content) = 0"
       "occurrences ''try'' (lower content) = 0" "occurrences ''catch'' (lower content) = 0"
  proof -
    from that have "?K = 8" by (simp add: control_structures_def)
    with that(1) exact show ?thesis by simp
  qed
  with score exact show ?thesis by blast
qed

text \<open>
  A content of 1,000 lines: eight keywords on the first line, then 999 line breaks.
\<close>

theorem C8_thousand_lines_witness:
  "length (split_on CHR 0x0A (''if if if if if for for for'' @ replicate 999 CHR 0x0A)) = 1000
   \<and> occurrences ''if'' (lower (''if if if if if for for for'' @ replicate 999 CHR 0x0A)) = 5
   \<and> occurrences ''for'' (lower (''if if if if if for for for'' @ replicate 999 CHR 0x0A)) = 3
   \<and> calculate_complexity (''if if if if if for for for'' @ replicate 999 CHR 0x0A) = 104"
proof -
  let ?c = "''if if if if if for for for'' @ replicate 999 CHR 0x0A"
  have l: "length (split_on CHR 0x0A ?c) = 1000"
    by (subst length_split_on_newlines) simp_all
  have o1: "occurrences ''if'' (lower ?c) = 5" by (subst occurrences_sample) simp_all
  have o2: "occurrences ''for'' (lower ?c) = 3" by (subst occurrences_sample) simp_all
  have o3: "occurrences ''while'' (lower ?c) = 0" by (subst occurrences_sample) simp_all
  have o4: "occurrences ''switch'' (lower ?c) = 0" by (subst occurrences_sample) simp_all
  have o5: "occurrences ''case'' (lower ?c) = 0" by (subst occurrences_sample) simp_all
  have o6: "occurrences ''try'' (lower ?c) = 0" by (subst occurrences_sample) simp_all
  have o7: "occurrences ''catch'' (lower ?c) = 0" by (subst occurrences_sample) simp_all
  have "calculate_complexity ?c = 104"
    by (rule C8_complexity_score [of ?c, THEN conjunct2, THEN conjunct2, rule_format])
       (intro conjI l o1 o2 o3 o4 o5 o6 o7)
  with l o1 o2 show ?thesis by (intro conjI)
qed

section \<open>The claims about the manifest parsers\<close>

text \<open>
  Claim C3. The claim reads: in a Pipfile, exactly the lines inside a \<^verbatim>\<open>[packages]\<close> or
  \<^verbatim>\<open>[dev-packages]\<close> section that contain \<^verbatim>\<open>=\<close> give a record, whose version is the
  entire right-hand side of the \<^verbatim>\<open>=\<close> without its quotes, and \<^verbatim>\<open>is_dev\<close> holds exactly
  in the section \<^verbatim>\<open>dev-packages\<close>. The source takes \<^verbatim>\<open>line.split('=')[1]\<close>, the piece
  between the first and the second \<^verbatim>\<open>=\<close>. The theorem evaluates the parser on a Pipfile
  with the lines \<^verbatim>\<open>flask = "==1.1.2"\<close> and \<^verbatim>\<open>pytest = ">=6.0"\<close>: both records are there,
  with the right names and \<^verbatim>\<open>is_dev\<close>, and with the versions empty and \<^verbatim>\<open>>\<close>.
\<close>

theorem C3_version_cut_at_second_equals:
  "parse_pipfile_dependencies
     (''[packages]'' @ newline @ ''flask = '' @ dquote @ ''==1.1.2'' @ dquote @ newline
      @ ''[dev-packages]'' @ newline @ ''pytest = '' @ dquote @ ''>=6.0'' @ dquote @ newline)
   = Inr [\<lparr>name = ''flask'', version = [], dep_type = Pipenv, is_dev = False\<rparr>,
          \<lparr>name = ''pytest'', version = ''>'', dep_type = Pipenv, is_dev = True\<rparr>]"
  by (simp add: parse_pipfile_dependencies_def text_eval)

text \<open>
  Claim C7. The requirements text of the scenario, \<^verbatim>\<open>flask>=2.0\<close>, a comment line and
  \<^verbatim>\<open>requests\<close>, each ended by a line break, gives exactly the two records of the claim,
  in order. The general part of the claim reads: a line is split at the first of the
  characters \<^verbatim>\<open>>=<~!\<close> into name and version. The source takes as version the line
  with every occurrence of the name deleted (\<^verbatim>\<open>line.replace(name_version, '')\<close>):
  for \<^verbatim>\<open>flask>=2.0 # flask\<close> the version is \<^verbatim>\<open>>=2.0 #\<close>, not the rest of the line
  from the operator on.
\<close>

theorem C7_requirements_lines:
  "parse_pip_dependencies (''flask>=2.0'' @ newline @ ''# comment'' @ newline @ ''requests'' @ newline)
   = Inr [\<lparr>name = ''flask'', version = ''>=2.0'', dep_type = Pip, is_dev = False\<rparr>,
          \<lparr>name = ''requests'', version = ''*'', dep_type = Pip, is_dev = False\<rparr>]
   \<and> parse_pip_dependencies (''flask>=2.0 # flask'' @ newline)
   = Inr [\<lparr>name = ''flask'', version = ''>=2.0 #'', dep_type = Pip, is_dev = False\<rparr>]"
  by (simp add: parse_pip_dependencies_def pip_line_def text_eval)




section \<open>The claim about the Python analyzer\<close>

text \<open>
  What the analyzer counts. Take a file of the language Python, built as the orchestrator
  builds it (the constructor, then the fetched content, which is not empty). When its text
  parses, the analyzed file has as \<open>function_count\<close> the number of \<^verbatim>\<open>FunctionDef\<close> nodes
  and as \<open>class_count\<close> the number of \<^verbatim>\<open>ClassDef\<close> nodes of the tree, those at the top
  level and those nested at any depth, each counted once. When the parser raises, the
  exception is caught: the analyzer returns, and both counts are zero. In neither case
  does \<^verbatim>\<open>_analyze_python_code\<close> raise.
\<close>

theorem analyze_file_python_counts:
  assumes "detect_language extension = ''Python''" and "content \<noteq> []"
  shows "(parse content = Inr tree \<longrightarrow>
            (\<exists>analyzed.
               analyze_file parse findall_count
                 ((File path base_name extension size_bytes [])\<lparr>file_content := content\<rparr>)
                 = Inr analyzed
               \<and> function_count analyzed = count_class FunctionDef tree
               \<and> class_count analyzed = count_class ClassDef tree))
       \<and> (parse content = Inl e \<longrightarrow>
            (\<exists>analyzed.
               analyze_file parse findall_count
                 ((File path base_name extension size_bytes [])\<lparr>file_content := content\<rparr>)
                 = Inr analyzed
               \<and> function_count analyzed = 0 \<and> class_count analyzed = 0))
       \<and> (\<exists>analyzed.
            analyze_python_code parse
              ((File path base_name extension size_bytes [])\<lparr>file_content := content\<rparr>)
              = Inr analyzed)"
proof -
  let ?f = "(File path base_name extension size_bytes [])\<lparr>file_content := content\<rparr>"
  let ?g = "?f\<lparr>line_count := length (split_on CHR 0x0A content)\<rparr>"
  have lang: "file_language ?g = ''Python''" and cont: "file_content ?g = content"
    and zero: "function_count ?g = 0" "class_count ?g = 0"
    using assms(1) by (simp_all add: File_def)
  have step: "analyze_file parse findall_count ?f
      = (case analyze_python_code parse ?g of
           Inl e \<Rightarrow> Inl e
         | Inr analyzed \<Rightarrow>
             Inr (analyzed\<lparr>complexity_score := calculate_complexity (file_content analyzed)\<rparr>))"
    using assms lang by (simp add: analyze_file_def Let_def File_def)
  have parsed: "\<exists>analyzed. analyze_file parse findall_count ?f = Inr analyzed
      \<and> function_count analyzed = count_class FunctionDef tree
      \<and> class_count analyzed = count_class ClassDef tree"
    if "parse content = Inr tree"
    using that by (simp add: step analyze_python_code_parsed [of parse ?g tree] cont)
  have failed: "\<exists>analyzed. analyze_file parse findall_count ?f = Inr analyzed
      \<and> function_count analyzed = 0 \<and> class_count analyzed = 0"
    if "parse content = Inl e"
    using that zero by (simp add: step analyze_python_code_failed [of parse ?g e] cont)
  have total: "\<exists>analyzed. analyze_python_code parse ?f = Inr analyzed"
    by (cases "parse (file_content ?f)") (simp_all add: analyze_python_code_def split: prod.splits)
  from parsed failed total show ?thesis by blast
qed

text \<open>
  A module with a class that holds a method with a function nested in it, next to an
  \<^verbatim>\<open>async def\<close> with a lambda in its body: the counts are two and one (the nodes
  \<^verbatim>\<open>AsyncFunctionDef\<close> and \<^verbatim>\<open>Lambda\<close> belong to neither count). And a text the parser
  rejects: both counts zero.
\<close>

theorem analyze_file_python_counts_example:
  "detect_language ''py'' = ''Python''
   \<and> (\<exists>analyzed.
         analyze_file
           (\<lambda>content. Inr (Node Module
              [Node ClassDef [Node FunctionDef [Node FunctionDef []]],
               Node AsyncFunctionDef [Node Lambda []]]))
           (\<lambda>pattern content. 0)
           ((File ''src/app.py'' ''app.py'' ''py'' 120 [])\<lparr>file_content := ''class A: ...''\<rparr>)
           = Inr analyzed
         \<and> function_count analyzed = 2 \<and> class_count analyzed = 1)
   \<and> (\<exists>analyzed.
         analyze_file (\<lambda>content. Inl SyntaxError) (\<lambda>pattern content. 0)
           ((File ''src/app.py'' ''app.py'' ''py'' 120 [])\<lparr>file_content := ''def f(:''\<rparr>)
           = Inr analyzed
         \<and> function_count analyzed = 0 \<and> class_count analyzed = 0)"
proof -
  have py: "detect_language ''py'' = ''Python''"
    by (simp add: detect_language_def extension_map_def lower_def lower_char_def
        upper_table_def lower_table_def)
  let ?tree = "Node Module
              [Node ClassDef [Node FunctionDef [Node FunctionDef []]],
               Node AsyncFunctionDef [Node Lambda []]]"
  have f: "count_class FunctionDef ?tree = 2" and c: "count_class ClassDef ?tree = 1"
    by simp_all
  have a: "\<exists>analyzed.
         analyze_file (\<lambda>content. Inr ?tree) (\<lambda>pattern content. 0)
           ((File ''src/app.py'' ''app.py'' ''py'' 120 [])\<lparr>file_content := ''class A: ...''\<rparr>)
           = Inr analyzed
         \<and> function_count analyzed = 2 \<and> class_count analyzed = 1"
    using analyze_file_python_counts [OF py, of "''class A: ...''" "\<lambda>content. Inr ?tree" ?tree
        "\<lambda>pattern content. 0" "''src/app.py''" "''app.py''" 120, unfolded f c]
    by simp
  have b: "\<exists>analyzed.
         analyze_file (\<lambda>content. Inl SyntaxError) (\<lambda>pattern content. 0)
           ((File ''src/app.py'' ''app.py'' ''py'' 120 [])\<lparr>file_content := ''def f(:''\<rparr>)
           = Inr analyzed
         \<and> function_count analyzed = 0 \<and> class_count analyzed = 0"
    using analyze_file_python_counts [OF py, of "''def f(:''" "\<lambda>content. Inl SyntaxError" _
        "\<lambda>pattern content. 0" "''src/app.py''" "''app.py''" 120 SyntaxError]
    by simp
  from py a b show ?thesis by (intro conjI)
qed

text \<open>
  Claim C2. The claim reads: for a Python file whose text parses, \<open>function_count\<close> and
  \<open>class_count\<close> are the exact numbers of function definitions and of class definitions
  in the text, nested ones included, and a parse error leaves both counts at zero without
  raising. The loop of \<^verbatim>\<open>_analyze_python_code\<close> tests \<^verbatim>\<open>isinstance(node, ast.FunctionDef)\<close>,
  and \<^verbatim>\<open>ast.AsyncFunctionDef\<close> is not a subclass of \<^verbatim>\<open>ast.FunctionDef\<close>: a function
  defined with \<^verbatim>\<open>async def\<close> is not counted, while the analyzer of JavaScript in the same
  class has a pattern of its own for \<^verbatim>\<open>async function\<close>. The theorem evaluates the analyzer on
  a module of two lines, \<^verbatim>\<open>async def a(): pass\<close> and \<^verbatim>\<open>async def b(): pass\<close>, whose tree
  has the two \<^verbatim>\<open>AsyncFunctionDef\<close> nodes under the module, each with its \<^verbatim>\<open>arguments\<close>
  and its \<^verbatim>\<open>Pass\<close> node: the text holds two function definitions, and
  \<open>function_count\<close> is zero.
\<close>

theorem C2_async_definitions_not_counted:
  "count_class AsyncFunctionDef
     (Node Module [Node AsyncFunctionDef [Node OtherNode [], Node OtherNode []],
                   Node AsyncFunctionDef [Node OtherNode [], Node OtherNode []]]) = 2
   \<and> (\<exists>analyzed.
         analyze_file
           (\<lambda>content. Inr (Node Module
              [Node AsyncFunctionDef [Node OtherNode [], Node OtherNode []],
               Node AsyncFunctionDef [Node OtherNode [], Node OtherNode []]]))
           (\<lambda>pattern content. 0)
           ((File ''src/app.py'' ''app.py'' ''py'' 40 [])
              \<lparr>file_content := ''async def a(): pass'' @ newline @ ''async def b(): pass'' @ newline\<rparr>)
           = Inr analyzed
         \<and> function_count analyzed = 0 \<and> class_count analyzed = 0)"
proof -
  have py: "detect_language ''py'' = ''Python''"
    by (simp add: detect_language_def extension_map_def lower_def lower_char_def
        upper_table_def lower_table_def)
  let ?tree = "Node Module [Node AsyncFunctionDef [Node OtherNode [], Node OtherNode []],
                            Node AsyncFunctionDef [Node OtherNode [], Node OtherNode []]]"
  have f: "count_class FunctionDef ?tree = 0" and c: "count_class ClassDef ?tree = 0"
    and a: "count_class AsyncFunctionDef ?tree = 2"
    by simp_all
  have "\<exists>analyzed.
         analyze_file (\<lambda>content. Inr ?tree) (\<lambda>pattern content. 0)
           ((File ''src/app.py'' ''app.py'' ''py'' 40 [])
              \<lparr>file_content := ''async def a(): pass'' @ newline @ ''async def b(): pass'' @ newline\<rparr>)
           = Inr analyzed
         \<and> function_count analyzed = 0 \<and> class_count analyzed = 0"
    using analyze_file_python_counts [OF py,
        of "''async def a(): pass'' @ newline @ ''async def b(): pass'' @ newline"
        "\<lambda>content. Inr ?tree" ?tree "\<lambda>pattern content. 0" "''src/app.py''" "''app.py''" 40,
        unfolded f c]
    by simp
  with a show ?thesis by (intro conjI)
qed

section \<open>The claims about technology scoring\<close>

text \<open>
  Claim C5. The contributions to a technology are the confidences that
  \<^verbatim>\<open>_analyze_file_content\<close> returns for it on the files with content and that
  \<^verbatim>\<open>_analyze_dependency\<close> returns for it on the dependencies. The dictionary \<open>detected\<close>
  holds for a technology the maximum of its contributions, and no entry when it has
  none; a technology is emitted, with exactly that maximum as its confidence, when the
  maximum exceeds 0.1. In a run where the contributions to a technology are 0.3 and 0.8,
  it is emitted with the confidence 0.8, and with no other.
\<close>

theorem C5_confidence_is_maximum:
  "map_of (detected_confidences mc files deps) t
     = (if contributions mc files deps t = {} then None
        else Some (Max (contributions mc files deps t)))
   \<and> (\<lparr>tech = t, tech_category = k, tech_confidence = c\<rparr> \<in> set (detect_technologies mc files deps)
        \<longleftrightarrow> contributions mc files deps t \<noteq> {} \<and> c = Max (contributions mc files deps t)
            \<and> 0.1 < c \<and> k = get_technology_category t)
   \<and> (contributions mc files deps t = {0.3, 0.8}
        \<longrightarrow> \<lparr>tech = t, tech_category = get_technology_category t, tech_confidence = 0.8\<rparr>
              \<in> set (detect_technologies mc files deps)
          \<and> (\<forall>r \<in> set (detect_technologies mc files deps). tech r = t \<longrightarrow> tech_confidence r = 0.8))"
proof -
  note m = map_of_detected_confidences [of mc files deps]
  have emitted: "\<lparr>tech = t, tech_category = k, tech_confidence = c\<rparr> \<in> set (detect_technologies mc files deps)
        \<longleftrightarrow> contributions mc files deps t \<noteq> {} \<and> c = Max (contributions mc files deps t)
            \<and> 0.1 < c \<and> k = get_technology_category t" for k c
    by (auto simp: set_detect_technologies m)
  have scenario: "\<lparr>tech = t, tech_category = get_technology_category t, tech_confidence = 0.8\<rparr>
              \<in> set (detect_technologies mc files deps)
          \<and> (\<forall>r \<in> set (detect_technologies mc files deps). tech r = t \<longrightarrow> tech_confidence r = 0.8)"
    if c: "contributions mc files deps t = {0.3, 0.8}"
  proof -
    have mx: "Max (contributions mc files deps t) = 0.8" by (simp add: c)
    have "\<lparr>tech = t, tech_category = get_technology_category t, tech_confidence = 0.8\<rparr>
              \<in> set (detect_technologies mc files deps)"
      by (simp add: emitted mx) (simp add: c)
    moreover have "tech_confidence r = 0.8"
      if "r \<in> set (detect_technologies mc files deps)" "tech r = t" for r
      using that by (auto simp: set_detect_technologies m mx split: if_splits)
    ultimately show ?thesis by blast
  qed
  from m emitted scenario show ?thesis by blast
qed

text \<open>
  A run with the two contributions of the claim: a file whose text matches two patterns of
  Flask once each, which gives 0.3, and a dependency named \<^verbatim>\<open>flask\<close>, which gives 0.8.
\<close>

theorem C5_flask_witness:
  "contributions
     sample_match_count
     [(File ''app.py'' ''app.py'' ''py'' 19 [])\<lparr>file_content := ''from flask import x''\<rparr>]
     [\<lparr>name = ''flask'', version = ''>=2.0'', dep_type = Pip, is_dev = False\<rparr>]
     ''Flask'' = {0.3, 0.8}
   \<and> \<lparr>tech = ''Flask'', tech_category = ''frameworks'', tech_confidence = 0.8\<rparr>
       \<in> set (detect_technologies
              sample_match_count
              [(File ''app.py'' ''app.py'' ''py'' 19 [])\<lparr>file_content := ''from flask import x''\<rparr>]
              [\<lparr>name = ''flask'', version = ''>=2.0'', dep_type = Pip, is_dev = False\<rparr>])"
proof -
  let ?mc = sample_match_count
  let ?files = "[(File ''app.py'' ''app.py'' ''py'' 19 [])\<lparr>file_content := ''from flask import x''\<rparr>]"
  let ?deps = "[\<lparr>name = ''flask'', version = ''>=2.0'', dep_type = Pip, is_dev = False\<rparr>]"
  have "evidence ?mc ?files ?deps = [(''Flask'', 0.3), (''Flask'', 0.8)]"
    unfolding evidence_def by (simp add: sample_file_evidence sample_dependency_evidence)
  then have c: "contributions ?mc ?files ?deps ''Flask'' = {0.3, 0.8}"
    unfolding contributions_def by auto
  with C5_confidence_is_maximum [of ?mc ?files ?deps "''Flask''"]
  have "\<lparr>tech = ''Flask'', tech_category = get_technology_category ''Flask'', tech_confidence = 0.8\<rparr>
       \<in> set (detect_technologies ?mc ?files ?deps)"
    by blast
  with c show ?thesis by (simp only: sample_category) 
qed

text \<open>
  Claim C6. Technology scoring is a function of its inputs, and the order of the files and
  of the dependency records does not matter: for every rearrangement of the two sequences,
  the confidence the dictionary \<open>detected\<close> holds for each technology name is the same,
  and the same technologies are emitted with the same categories and confidences.
\<close>

theorem C6_order_independent:
  assumes "mset files' = mset files" and "mset deps' = mset deps"
  shows "map_of (detected_confidences mc files' deps') = map_of (detected_confidences mc files deps)
       \<and> set (detect_technologies mc files' deps') = set (detect_technologies mc files deps)"
proof -
  from assms have "set files' = set files" "set deps' = set deps"
    by (auto dest: mset_eq_setD)
  then have "set (evidence mc files' deps') = set (evidence mc files deps)"
    by (rule set_evidence_cong)
  then have "contributions mc files' deps' t = contributions mc files deps t" for t
    by (simp add: contributions_def)
  then have "map_of (detected_confidences mc files' deps') t
      = map_of (detected_confidences mc files deps) t" for t
    by (simp add: map_of_detected_confidences)
  then have "map_of (detected_confidences mc files' deps') = map_of (detected_confidences mc files deps)"
    by (rule ext)
  then show ?thesis by (simp add: set_detect_technologies)
qed

text \<open>
  Two files and two dependency records, taken in both orders.
\<close>

theorem C6_swapped_witness:
  "mset [(File ''test_app.py'' ''test_app.py'' ''py'' 11 [])\<lparr>file_content := ''import pytest''\<rparr>,
         (File ''app.py'' ''app.py'' ''py'' 19 [])\<lparr>file_content := ''from flask import x''\<rparr>]
     = mset [(File ''app.py'' ''app.py'' ''py'' 19 [])\<lparr>file_content := ''from flask import x''\<rparr>,
             (File ''test_app.py'' ''test_app.py'' ''py'' 11 [])\<lparr>file_content := ''import pytest''\<rparr>]
   \<and> mset [\<lparr>name = ''redis'', version = ''*'', dep_type = Pip, is_dev = False\<rparr>,
           \<lparr>name = ''flask'', version = ''>=2.0'', dep_type = Pip, is_dev = False\<rparr>]
     = mset [\<lparr>name = ''flask'', version = ''>=2.0'', dep_type = Pip, is_dev = False\<rparr>,
             \<lparr>name = ''redis'', version = ''*'', dep_type = Pip, is_dev = False\<rparr>]
   \<and> set (detect_technologies
            sample_match_count
            [(File ''test_app.py'' ''test_app.py'' ''py'' 11 [])\<lparr>file_content := ''import pytest''\<rparr>,
             (File ''app.py'' ''app.py'' ''py'' 19 [])\<lparr>file_content := ''from flask import x''\<rparr>]
            [\<lparr>name = ''redis'', version = ''*'', dep_type = Pip, is_dev = False\<rparr>,
             \<lparr>name = ''flask'', version = ''>=2.0'', dep_type = Pip, is_dev = False\<rparr>])
     = set (detect_technologies
            sample_match_count
            [(File ''app.py'' ''app.py'' ''py'' 19 [])\<lparr>file_content := ''from flask import x''\<rparr>,
             (File ''test_app.py'' ''test_app.py'' ''py'' 11 [])\<lparr>file_content := ''import pytest''\<rparr>]
            [\<lparr>name = ''flask'', version = ''>=2.0'', dep_type = Pip, is_dev = False\<rparr>,
             \<lparr>name = ''redis'', version = ''*'', dep_type = Pip, is_dev = False\<rparr>])"
proof -
  let ?f1 = "(File ''app.py'' ''app.py'' ''py'' 19 [])\<lparr>file_content := ''from flask import x''\<rparr>"
  let ?f2 = "(File ''test_app.py'' ''test_app.py'' ''py'' 11 [])\<lparr>file_content := ''import pytest''\<rparr>"
  let ?d1 = "\<lparr>name = ''flask'', version = ''>=2.0'', dep_type = Pip, is_dev = False\<rparr>"
  let ?d2 = "\<lparr>name = ''redis'', version = ''*'', dep_type = Pip, is_dev = False\<rparr>"
  have a: "mset [?f2, ?f1] = mset [?f1, ?f2]" by (simp add: add.commute)
  have b: "mset [?d2, ?d1] = mset [?d1, ?d2]" by (simp add: add.commute)
  from C6_order_independent [OF a b] a b show ?thesis by blast
qed

end
